theory Spec2Isabelle
  imports Complex_Main
begin

section \<open>The OAK-D sample pipeline (skeleton.py)\<close>

text \<open>
  The script has two functions. \<open>setup_pipeline\<close> builds the description of the device
  graph; \<open>upload_pipeline\<close> opens the device and runs the host loop that polls five
  output queues and renders what it finds. Both talk to the vendor SDK, to OpenCV and to
  the helper module \<open>dai_tools\<close>, none of which is part of the script. Their calls are
  recorded here as data (the pipeline object that is built, the trace of display calls),
  and what they return to the script is an input of the model.
\<close>

subsection \<open>Configuration constants\<close>

text \<open>
  The module \<open>dai_tools.config\<close> is read as a set of constants; the script never writes
  to it. Its values are a parameter of the model.
\<close>

record config =
  COLOR_CAMERA_PREVIEW_SIZE :: "int \<times> int"
  CAMERA_INTERLEAVED :: bool
  NN_THRESHOLD :: rat
  INFERENCE_THREADS :: int
  MOBILENET_DETECTION_MODEL_PATH :: string
  COLOR_CAMERA_QUEUE_SIZE :: int
  QUEUE_BLOCKING :: bool
  TEXT_COLOR2 :: "int \<times> int \<times> int"
  PRINT_NEURAL_NETWORK_METADATA :: bool

subsection \<open>Frames, messages and calls to the display layer\<close>

text \<open>
  A frame is the array \<open>getCvFrame()\<close> returns: its pixels (left abstract), its number of
  rows (\<open>shape[0]\<close>) and the texts the host loop has drawn on it with \<open>cv2.putText\<close>,
  which writes into the array in place. The drawn text is the format string applied to
  the quotient; the rounding of \<open>{:.2f}\<close> and of floating-point division is not
  modelled, the quotient is kept as an exact rational.
\<close>

datatype font = FONT_HERSHEY_TRIPLEX

datatype fps_text = NN_fps rat

record text_args =
  caption :: fps_text
  org :: "int \<times> int"
  fontFace :: font
  fontScale :: rat
  color :: "int \<times> int \<times> int"

record 'px cvFrame =
  pixels :: 'px
  rows :: int
  drawn :: "text_args list"

definition putText :: "'px cvFrame \<Rightarrow> fps_text \<Rightarrow> int \<times> int \<Rightarrow> font \<Rightarrow> rat \<Rightarrow> int \<times> int \<times> int \<Rightarrow> 'px cvFrame" where
  "putText img s pos face scale col =
     img\<lparr>drawn := drawn img @ [\<lparr>caption = s, org = pos, fontFace = face, fontScale = scale, color = col\<rparr>]\<rparr>"

text \<open>A detection message carries a list of detection records in its field \<open>detections\<close>.\<close>

datatype 'd ImgDetections = ImgDetections (detections: "'d list")

text \<open>
  The calls the loop makes to its collaborators, in the order it makes them:
  \<open>displayFrame(name, frame, detections)\<close>, \<open>print_neural_network_layer_names(inNN)\<close>
  and \<open>cv2.waitKey(delay)\<close>. What the display layer paints is its own business; the
  trace records the arguments it was given.
\<close>

datatype ('px, 'd, 'nn) call =
    displayFrame string "'px cvFrame" "'d list"
  | print_neural_network_layer_names 'nn
  | waitKey int

datatype py_error = ZeroDivisionError

datatype status = Continue | Break | Raise py_error

subsection \<open>The variables of the host loop\<close>

text \<open>
  The local variables that live across iterations. \<open>lFrame\<close> and \<open>rFrame\<close> are unbound
  (\<open>None\<close>) until the first left or right frame arrives; \<open>clrFrame\<close> starts as Python's
  \<open>None\<close>.
\<close>

record ('px, 'd) vars =
  lFrame :: "'px cvFrame option"
  rFrame :: "'px cvFrame option"
  clrFrame :: "'px cvFrame option"
  detections :: "'d list"
  startTime :: rat
  counter :: int
  color2 :: "int \<times> int \<times> int"
  printOutputLayersOnce :: bool

text \<open>
  What one iteration receives from outside: the result of \<open>tryGet()\<close> on each of the five
  queues (\<open>None\<close> when the queue has nothing), the reading \<open>time.monotonic()\<close> gives if
  it is asked, and the key code \<open>cv2.waitKey(1)\<close> returns.
\<close>

record ('px, 'd, 'nn) tick =
  LeftFrames :: "'px cvFrame option"
  RightFrames :: "'px cvFrame option"
  RGBFrames :: "'px cvFrame option"
  inDet :: "'d ImgDetections option"
  inNN :: "'nn option"
  monotonic :: rat
  key :: int

record ('px, 'd, 'nn) outcome =
  state :: "('px, 'd) vars"
  calls :: "('px, 'd, 'nn) call list"
  status :: status

definition ord :: "char \<Rightarrow> int" where
  "ord c = of_char c"

subsection \<open>One iteration of the loop, block by block\<close>

text \<open>Lines 159 to 166: a left or right frame is shown as soon as it is read.\<close>

definition show_left :: "('px, 'd, 'nn) tick \<Rightarrow> ('px, 'd) vars \<Rightarrow> ('px, 'd) vars \<times> ('px, 'd, 'nn) call list" where
  "show_left t s =
     (case LeftFrames t of
        None \<Rightarrow> (s, [])
      | Some f \<Rightarrow> (s\<lparr>lFrame := Some f\<rparr>, [displayFrame ''Left'' f []]))"

definition show_right :: "('px, 'd, 'nn) tick \<Rightarrow> ('px, 'd) vars \<Rightarrow> ('px, 'd) vars \<times> ('px, 'd, 'nn) call list" where
  "show_right t s =
     (case RightFrames t of
        None \<Rightarrow> (s, [])
      | Some f \<Rightarrow> (s\<lparr>rFrame := Some f\<rparr>, [displayFrame ''Right'' f []]))"

text \<open>
  Lines 168 to 177: a colour frame replaces \<open>clrFrame\<close> and gets the FPS text. The
  division is Python's true division by a float, which raises \<open>ZeroDivisionError\<close>
  when the divisor is zero; \<open>clrFrame\<close> has been assigned by then.
\<close>

definition annotate :: "('px, 'd, 'nn) tick \<Rightarrow> ('px, 'd) vars \<Rightarrow> ('px, 'd) vars \<times> py_error option" where
  "annotate t s =
     (case RGBFrames t of
        None \<Rightarrow> (s, None)
      | Some f \<Rightarrow>
          if monotonic t - startTime s = 0
          then (s\<lparr>clrFrame := Some f\<rparr>, Some ZeroDivisionError)
          else (s\<lparr>clrFrame := Some (putText f
                    (NN_fps (of_int (counter s) / (monotonic t - startTime s)))
                    (2, rows f - 4) FONT_HERSHEY_TRIPLEX (4 / 10) (color2 s))\<rparr>, None))"

text \<open>Lines 180 to 183: a detection message replaces the list and counts as one.\<close>

definition fetch_detections :: "('px, 'd, 'nn) tick \<Rightarrow> ('px, 'd) vars \<Rightarrow> ('px, 'd) vars" where
  "fetch_detections t s =
     (case inDet t of
        None \<Rightarrow> s
      | Some m \<Rightarrow> s\<lparr>detections := ImgDetections.detections m, counter := counter s + 1\<rparr>)"

text \<open>Lines 185 to 189: the layer names are printed while the flag is still set.\<close>

definition print_layers :: "('px, 'd, 'nn) tick \<Rightarrow> ('px, 'd) vars \<Rightarrow> ('px, 'd) vars \<times> ('px, 'd, 'nn) call list" where
  "print_layers t s =
     (case inNN t of
        None \<Rightarrow> (s, [])
      | Some n \<Rightarrow>
          if printOutputLayersOnce s
          then (s\<lparr>printOutputLayersOnce := False\<rparr>, [print_neural_network_layer_names n])
          else (s, []))"

text \<open>Lines 192 and 193: the colour window shows \<open>clrFrame\<close> whenever it is not \<open>None\<close>.\<close>

definition show_colour :: "('px, 'd) vars \<Rightarrow> ('px, 'd, 'nn) call list" where
  "show_colour s =
     (case clrFrame s of
        None \<Rightarrow> []
      | Some f \<Rightarrow> [displayFrame ''RGB Detection'' f (detections s)])"

text \<open>Lines 195 and 196: the key poll, and the only \<open>break\<close> of the loop.\<close>

definition key_check :: "('px, 'd, 'nn) tick \<Rightarrow> status" where
  "key_check t = (if key t = ord CHR ''q'' then Break else Continue)"

definition iteration :: "('px, 'd) vars \<Rightarrow> ('px, 'd, 'nn) tick \<Rightarrow> ('px, 'd, 'nn) outcome" where
  "iteration s t =
     (let (s1, c1) = show_left t s;
          (s2, c2) = show_right t s1;
          (s3, err) = annotate t s2
      in case err of
           Some e \<Rightarrow> \<lparr>state = s3, calls = c1 @ c2, status = Raise e\<rparr>
         | None \<Rightarrow>
             (let s4 = fetch_detections t s3;
                  (s5, c5) = print_layers t s4
              in \<lparr>state = s5,
                  calls = c1 @ c2 @ c5 @ show_colour s5 @ [waitKey 1],
                  status = key_check t\<rparr>))"

subsection \<open>The loop and the session\<close>

text \<open>
  \<open>while True\<close> has no bound of its own. The loop is run over the list of what the
  outside world hands to the successive iterations; when the list is used up the loop
  is still running, which is the status \<open>Continue\<close>. It stops before that on \<open>break\<close>
  or on an exception.
\<close>

fun run :: "('px, 'd) vars \<Rightarrow> ('px, 'd, 'nn) tick list \<Rightarrow> ('px, 'd, 'nn) outcome" where
  "run s [] = \<lparr>state = s, calls = [], status = Continue\<rparr>"
| "run s (t # ts) =
     (let r = iteration s t
      in if status r = Continue
         then (let r' = run (state r) ts in r'\<lparr>calls := calls r @ calls r'\<rparr>)
         else r)"

text \<open>
  Lines 137 to 145: the variables before the first iteration. \<open>t0\<close> is the reading of
  \<open>time.monotonic()\<close> taken there. What \<open>upload_pipeline\<close> does before that (opening
  the device with the pipeline, printing three facts about the device, asking for the
  five output queues) stays inside the SDK; the queues show up here as what \<open>tryGet()\<close>
  returns on each tick.
\<close>

definition initial :: "config \<Rightarrow> rat \<Rightarrow> ('px, 'd) vars" where
  "initial cfg t0 =
     \<lparr>lFrame = None, rFrame = None, clrFrame = None, detections = [], startTime = t0,
      counter = 0, color2 = TEXT_COLOR2 cfg,
      printOutputLayersOnce = PRINT_NEURAL_NETWORK_METADATA cfg\<rparr>"

definition upload_pipeline :: "config \<Rightarrow> rat \<Rightarrow> ('px, 'd, 'nn) tick list \<Rightarrow> ('px, 'd, 'nn) outcome" where
  "upload_pipeline cfg t0 ts = run (initial cfg t0) ts"

subsection \<open>Reading the trace\<close>

text \<open>
  The window a call paints, when it is a \<open>displayFrame\<close>; the argument of a call when
  it is the layer-name dump; whether a call is a key poll.
\<close>

fun window :: "('px, 'd, 'nn) call \<Rightarrow> string option" where
  "window (displayFrame name f ds) = Some name"
| "window (print_neural_network_layer_names n) = None"
| "window (waitKey d) = None"

fun dumped :: "('px, 'd, 'nn) call \<Rightarrow> 'nn option" where
  "dumped (displayFrame name f ds) = None"
| "dumped (print_neural_network_layer_names n) = Some n"
| "dumped (waitKey d) = None"

fun is_poll :: "('px, 'd, 'nn) call \<Rightarrow> bool" where
  "is_poll (displayFrame name f ds) = False"
| "is_poll (print_neural_network_layer_names n) = False"
| "is_poll (waitKey d) = True"

definition renders :: "string \<Rightarrow> ('px, 'd, 'nn) call list \<Rightarrow> ('px, 'd, 'nn) call list" where
  "renders name cs = filter (\<lambda>c. window c = Some name) cs"

definition layer_dumps :: "('px, 'd, 'nn) call list \<Rightarrow> 'nn list" where
  "layer_dumps cs = List.map_filter dumped cs"

definition polls :: "('px, 'd, 'nn) call list \<Rightarrow> nat" where
  "polls cs = length (filter is_poll cs)"

subsection \<open>What has been received so far\<close>

text \<open>
  Two notions in the words of the specification, defined on the history of ticks and
  not on the variables of the loop: the most recent detection set is the content of the
  last detection message that has arrived (empty while none has), and the most recent
  colour frame is the last colour frame that has arrived.
\<close>

definition latest_detections :: "('px, 'd, 'nn) tick list \<Rightarrow> 'd list" where
  "latest_detections ts =
     (let ms = List.map_filter inDet ts
      in if ms = [] then [] else ImgDetections.detections (last ms))"

definition latest_colour_frame :: "('px, 'd, 'nn) tick list \<Rightarrow> 'px cvFrame option" where
  "latest_colour_frame ts =
     (let fs = List.map_filter RGBFrames ts
      in if fs = [] then None else Some (last fs))"

section \<open>The pipeline builder\<close>








datatype color_order = RGB
















section \<open>Sample inputs\<close>

text \<open>
  Concrete values on which the theorems below are exercised: two configurations that
  differ only in what the pipeline builder does not read, four states of the disk (two
  with the same model file, one with another model file, one with none), two frames, a
  state of the loop in mid-session, and ticks on which nothing, a colour frame, a
  detection message, a metadata message, everything at once, or the quit key arrives.
\<close>

definition cfg0 :: config where
  "cfg0 = \<lparr>COLOR_CAMERA_PREVIEW_SIZE = (300, 300), CAMERA_INTERLEAVED = False,
     NN_THRESHOLD = 1 / 2, INFERENCE_THREADS = 2,
     MOBILENET_DETECTION_MODEL_PATH = ''mobilenet.blob'', COLOR_CAMERA_QUEUE_SIZE = 4,
     QUEUE_BLOCKING = False, TEXT_COLOR2 = (255, 255, 255),
     PRINT_NEURAL_NETWORK_METADATA = True\<rparr>"

definition idle :: "(nat, nat, nat) tick" where
  "idle = \<lparr>LeftFrames = None, RightFrames = None, RGBFrames = None, inDet = None,
     inNN = None, monotonic = 1, key = -1\<rparr>"

definition frameA :: "nat cvFrame" where
  "frameA = \<lparr>pixels = 1, rows = 300, drawn = []\<rparr>"

definition frameB :: "nat cvFrame" where
  "frameB = \<lparr>pixels = 2, rows = 300, drawn = []\<rparr>"

definition colour_tick :: "(nat, nat, nat) tick" where
  "colour_tick = \<lparr>LeftFrames = None, RightFrames = None, RGBFrames = Some frameA, inDet = None,
     inNN = None, monotonic = 1, key = -1\<rparr>"

definition detection_tick :: "(nat, nat, nat) tick" where
  "detection_tick = \<lparr>LeftFrames = None, RightFrames = None, RGBFrames = None,
     inDet = Some (ImgDetections [7, 9]), inNN = None, monotonic = 2, key = -1\<rparr>"

definition metadata_tick :: "(nat, nat, nat) tick" where
  "metadata_tick = \<lparr>LeftFrames = None, RightFrames = None, RGBFrames = None, inDet = None,
     inNN = Some 3, monotonic = 3, key = -1\<rparr>"

definition full_tick :: "(nat, nat, nat) tick" where
  "full_tick = \<lparr>LeftFrames = Some frameB, RightFrames = Some frameB, RGBFrames = Some frameA,
     inDet = Some (ImgDetections [7, 9]), inNN = Some 3, monotonic = 1, key = -1\<rparr>"

definition quit_tick :: "(nat, nat, nat) tick" where
  "quit_tick = \<lparr>LeftFrames = None, RightFrames = None, RGBFrames = None, inDet = None,
     inNN = None, monotonic = 4, key = 113\<rparr>"

definition cfg1 :: config where
  "cfg1 = \<lparr>COLOR_CAMERA_PREVIEW_SIZE = (300, 300), CAMERA_INTERLEAVED = False,
     NN_THRESHOLD = 1 / 2, INFERENCE_THREADS = 2,
     MOBILENET_DETECTION_MODEL_PATH = ''mobilenet.blob'', COLOR_CAMERA_QUEUE_SIZE = 8,
     QUEUE_BLOCKING = True, TEXT_COLOR2 = (0, 0, 255),
     PRINT_NEURAL_NETWORK_METADATA = False\<rparr>"

definition second_colour_tick :: "(nat, nat, nat) tick" where
  "second_colour_tick = \<lparr>LeftFrames = None, RightFrames = None, RGBFrames = Some frameB,
     inDet = None, inNN = None, monotonic = 5, key = -1\<rparr>"





definition busy :: "(nat, nat) vars" where
  "busy = \<lparr>lFrame = Some frameB, rFrame = Some frameB, clrFrame = Some frameA,
     detections = [7, 9], startTime = 0, counter = 3, color2 = (255, 255, 255),
     printOutputLayersOnce = True\<rparr>"

section \<open>Facts about one iteration\<close>

lemma ord_q: "ord CHR ''q'' = 113"
  by (simp add: ord_def)

text \<open>What each block does to the variables and which calls it makes.\<close>

lemma fst_show_left:
  "fst (show_left t s) = s\<lparr>lFrame := (case LeftFrames t of None \<Rightarrow> lFrame s | Some f \<Rightarrow> Some f)\<rparr>"
  by (simp add: show_left_def split: option.split)

lemma snd_show_left:
  "snd (show_left t s) = (case LeftFrames t of None \<Rightarrow> [] | Some f \<Rightarrow> [displayFrame ''Left'' f []])"
  by (simp add: show_left_def split: option.split)

lemma fst_show_right:
  "fst (show_right t s) = s\<lparr>rFrame := (case RightFrames t of None \<Rightarrow> rFrame s | Some f \<Rightarrow> Some f)\<rparr>"
  by (simp add: show_right_def split: option.split)

lemma snd_show_right:
  "snd (show_right t s) = (case RightFrames t of None \<Rightarrow> [] | Some f \<Rightarrow> [displayFrame ''Right'' f []])"
  by (simp add: show_right_def split: option.split)

lemma snd_annotate:
  "snd (annotate t s) =
     (if RGBFrames t \<noteq> None \<and> monotonic t = startTime s then Some ZeroDivisionError else None)"
  by (simp add: annotate_def split: option.split)

lemma fst_annotate:
  "fst (annotate t s) =
     s\<lparr>clrFrame := (case RGBFrames t of
        None \<Rightarrow> clrFrame s
      | Some f \<Rightarrow>
          if monotonic t = startTime s then Some f
          else Some (putText f (NN_fps (of_int (counter s) / (monotonic t - startTime s)))
                 (2, rows f - 4) FONT_HERSHEY_TRIPLEX (4 / 10) (color2 s)))\<rparr>"
  by (simp add: annotate_def split: option.split)

lemma fetch_detections_eq:
  "fetch_detections t s =
     s\<lparr>detections := (case inDet t of None \<Rightarrow> detections s | Some m \<Rightarrow> ImgDetections.detections m),
       counter := (case inDet t of None \<Rightarrow> counter s | Some m \<Rightarrow> counter s + 1)\<rparr>"
  by (simp add: fetch_detections_def split: option.split)

lemma fst_print_layers:
  "fst (print_layers t s) = s\<lparr>printOutputLayersOnce := (printOutputLayersOnce s \<and> inNN t = None)\<rparr>"
  by (cases s) (simp add: print_layers_def split: option.split)

lemma snd_print_layers:
  "snd (print_layers t s) =
     (case inNN t of
        None \<Rightarrow> []
      | Some n \<Rightarrow> if printOutputLayersOnce s then [print_neural_network_layer_names n] else [])"
  by (simp add: print_layers_def split: option.split)

lemmas block_simps = fst_show_left snd_show_left fst_show_right snd_show_right snd_annotate
  fst_annotate fetch_detections_eq fst_print_layers snd_print_layers

text \<open>
  The iteration written out with the projections of its blocks: it either stops at the
  division, with the calls made so far, or runs through to the key check.
\<close>

lemma iteration_eq:
  "iteration s t =
     (let s1 = fst (show_left t s);
          s2 = fst (show_right t s1);
          s3 = fst (annotate t s2);
          s4 = fetch_detections t s3;
          s5 = fst (print_layers t s4)
      in if snd (annotate t s2) \<noteq> None
         then \<lparr>state = s3, calls = snd (show_left t s) @ snd (show_right t s1),
               status = Raise ZeroDivisionError\<rparr>
         else \<lparr>state = s5,
               calls = snd (show_left t s) @ snd (show_right t s1) @ snd (print_layers t s4) @
                 show_colour s5 @ [waitKey 1],
               status = key_check t\<rparr>)"
  apply (simp add: iteration_def Let_def split_beta split: option.split)
  apply (metis py_error.exhaust)
  done

text \<open>The outcome of an iteration, field by field, in terms of its inputs.\<close>

lemma status_iteration:
  "status (iteration s t) =
     (if RGBFrames t \<noteq> None \<and> monotonic t = startTime s then Raise ZeroDivisionError else key_check t)"
  by (simp add: iteration_eq block_simps Let_def split: option.split)

lemma clrFrame_iteration:
  "clrFrame (state (iteration s t)) =
     (case RGBFrames t of
        None \<Rightarrow> clrFrame s
      | Some f \<Rightarrow>
          if monotonic t = startTime s then Some f
          else Some (putText f (NN_fps (of_int (counter s) / (monotonic t - startTime s)))
                 (2, rows f - 4) FONT_HERSHEY_TRIPLEX (4 / 10) (color2 s)))"
  by (simp add: iteration_eq block_simps show_colour_def Let_def split: option.split)

lemma detections_iteration:
  "detections (state (iteration s t)) =
     (if RGBFrames t \<noteq> None \<and> monotonic t = startTime s then detections s
      else case inDet t of None \<Rightarrow> detections s | Some m \<Rightarrow> ImgDetections.detections m)"
  by (simp add: iteration_eq block_simps show_colour_def Let_def split: option.split)

lemma counter_iteration:
  "counter (state (iteration s t)) =
     (if RGBFrames t \<noteq> None \<and> monotonic t = startTime s then counter s
      else case inDet t of None \<Rightarrow> counter s | Some m \<Rightarrow> counter s + 1)"
  by (simp add: iteration_eq block_simps show_colour_def Let_def split: option.split)

lemma latch_iteration:
  "printOutputLayersOnce (state (iteration s t)) =
     (if RGBFrames t \<noteq> None \<and> monotonic t = startTime s then printOutputLayersOnce s
      else printOutputLayersOnce s \<and> inNN t = None)"
  by (simp add: iteration_eq block_simps show_colour_def Let_def split: option.split)

lemma startTime_iteration: "startTime (state (iteration s t)) = startTime s"
  by (simp add: iteration_eq block_simps show_colour_def Let_def split: option.split)

lemma color2_iteration: "color2 (state (iteration s t)) = color2 s"
  by (simp add: iteration_eq block_simps show_colour_def Let_def split: option.split)

lemma lFrame_iteration:
  "lFrame (state (iteration s t)) = (case LeftFrames t of None \<Rightarrow> lFrame s | Some f \<Rightarrow> Some f)"
  by (simp add: iteration_eq block_simps show_colour_def Let_def split: option.split)

lemma rFrame_iteration:
  "rFrame (state (iteration s t)) = (case RightFrames t of None \<Rightarrow> rFrame s | Some f \<Rightarrow> Some f)"
  by (simp add: iteration_eq block_simps show_colour_def Let_def split: option.split)

lemma calls_iteration:
  "calls (iteration s t) =
     (case LeftFrames t of None \<Rightarrow> [] | Some f \<Rightarrow> [displayFrame ''Left'' f []]) @
     (case RightFrames t of None \<Rightarrow> [] | Some f \<Rightarrow> [displayFrame ''Right'' f []]) @
     (if RGBFrames t \<noteq> None \<and> monotonic t = startTime s then []
      else (case inNN t of
              None \<Rightarrow> []
            | Some n \<Rightarrow> if printOutputLayersOnce s then [print_neural_network_layer_names n] else []) @
           (case clrFrame (state (iteration s t)) of
              None \<Rightarrow> []
            | Some f \<Rightarrow> [displayFrame ''RGB Detection'' f (detections (state (iteration s t)))]) @
           [waitKey 1])"
  by (simp add: iteration_eq block_simps show_colour_def Let_def split: option.split)


section \<open>Facts about the loop\<close>

lemma run_Nil_simps:
  "state (run s []) = s" "calls (run s []) = []" "status (run s []) = Continue"
  by simp_all

lemma run_Cons:
  "run s (t # ts) =
     (if status (iteration s t) = Continue
      then (run (state (iteration s t)) ts)\<lparr>calls := calls (iteration s t) @ calls (run (state (iteration s t)) ts)\<rparr>
      else iteration s t)"
  by (simp add: Let_def)

lemma status_run_Cons:
  "status (run s (t # ts)) =
     (if status (iteration s t) = Continue then status (run (state (iteration s t)) ts)
      else status (iteration s t))"
  by (simp add: Let_def)

lemma state_run_Cons:
  "state (run s (t # ts)) =
     (if status (iteration s t) = Continue then state (run (state (iteration s t)) ts)
      else state (iteration s t))"
  by (simp add: Let_def)

lemma calls_run_Cons:
  "calls (run s (t # ts)) =
     (if status (iteration s t) = Continue
      then calls (iteration s t) @ calls (run (state (iteration s t)) ts)
      else calls (iteration s t))"
  by (simp add: Let_def)

lemma startTime_run: "startTime (state (run s ts)) = startTime s"
  by (induction ts arbitrary: s) (simp_all add: Let_def startTime_iteration)

lemma color2_run: "color2 (state (run s ts)) = color2 s"
  by (induction ts arbitrary: s) (simp_all add: Let_def color2_iteration)

lemma run_append:
  "run s (ts @ us) =
     (if status (run s ts) = Continue
      then (run (state (run s ts)) us)\<lparr>calls := calls (run s ts) @ calls (run (state (run s ts)) us)\<rparr>
      else run s ts)"
proof (induction ts arbitrary: s)
  case Nil
  show ?case by simp
next
  case (Cons t ts)
  show ?case
  proof (cases "status (iteration s t) = Continue")
    case True
    then show ?thesis
      using Cons.IH [of "state (iteration s t)"] by (simp add: Let_def)
  next
    case False
    then show ?thesis by (simp add: Let_def)
  qed
qed

lemma status_run_snoc:
  "status (run s (ts @ [t])) =
     (if status (run s ts) = Continue then status (iteration (state (run s ts)) t)
      else status (run s ts))"
  by (simp add: run_append Let_def)

lemma state_run_snoc:
  "state (run s (ts @ [t])) =
     (if status (run s ts) = Continue then state (iteration (state (run s ts)) t)
      else state (run s ts))"
  by (simp add: run_append Let_def)

lemma calls_run_snoc:
  "calls (run s (ts @ [t])) =
     (if status (run s ts) = Continue then calls (run s ts) @ calls (iteration (state (run s ts)) t)
      else calls (run s ts))"
  by (simp add: run_append Let_def)

text \<open>When an iteration, and a run of iterations, goes on, breaks or polls the key.\<close>

lemma status_iteration_Continue:
  "status (iteration s t) = Continue \<longleftrightarrow>
     (RGBFrames t = None \<or> monotonic t \<noteq> startTime s) \<and> key t \<noteq> ord CHR ''q''"
  by (auto simp add: status_iteration key_check_def)

lemma status_iteration_Break:
  "status (iteration s t) = Break \<longleftrightarrow>
     (RGBFrames t = None \<or> monotonic t \<noteq> startTime s) \<and> key t = ord CHR ''q''"
  by (auto simp add: status_iteration key_check_def)

lemma run_Continue_iff:
  "status (run s ts) = Continue \<longleftrightarrow>
     (\<forall>t\<in>set ts. (RGBFrames t = None \<or> monotonic t \<noteq> startTime s) \<and> key t \<noteq> ord CHR ''q'')"
proof (induction ts arbitrary: s)
  case Nil
  show ?case by simp
next
  case (Cons t ts)
  show ?case
    using Cons.IH [of "state (iteration s t)"]
    by (auto simp add: status_run_Cons status_iteration_Continue startTime_iteration simp del: run.simps)
qed

lemma run_Break_key:
  "status (run s ts) = Break \<Longrightarrow> \<exists>t\<in>set ts. key t = ord CHR ''q''"
proof (induction ts arbitrary: s)
  case Nil
  then show ?case by simp
next
  case (Cons t ts)
  show ?case
  proof (cases "status (iteration s t) = Continue")
    case True
    with Cons.prems have "status (run (state (iteration s t)) ts) = Break"
      by (simp add: status_run_Cons del: run.simps)
    then show ?thesis using Cons.IH by auto
  next
    case False
    with Cons.prems have "status (iteration s t) = Break"
      by (simp add: status_run_Cons del: run.simps)
    then show ?thesis by (simp add: status_iteration_Break)
  qed
qed

lemma polls_append: "polls (xs @ ys) = polls xs + polls ys"
  by (simp add: polls_def)

lemma polls_iteration:
  "polls (calls (iteration s t)) = (if RGBFrames t \<noteq> None \<and> monotonic t = startTime s then 0 else 1)"
  by (simp add: calls_iteration polls_def split: option.split)

lemma polls_run_Continue:
  "status (run s ts) = Continue \<Longrightarrow> polls (calls (run s ts)) = length ts"
proof (induction ts arbitrary: s)
  case Nil
  show ?case by (simp add: polls_def)
next
  case (Cons t ts)
  from Cons.prems have c: "status (iteration s t) = Continue"
    and r: "status (run (state (iteration s t)) ts) = Continue"
    by (simp_all add: status_run_Cons del: run.simps split: if_splits)
  from c have "polls (calls (iteration s t)) = 1"
    by (auto simp add: polls_iteration status_iteration_Continue)
  with c Cons.IH [OF r] show ?case
    by (simp add: calls_run_Cons polls_append del: run.simps)
qed


subsection \<open>The layer-name dump over a run\<close>

lemma layer_dumps_append: "layer_dumps (xs @ ys) = layer_dumps xs @ layer_dumps ys"
  by (simp add: layer_dumps_def map_filter_def)

lemma layer_dumps_iteration:
  "layer_dumps (calls (iteration s t)) =
     (if RGBFrames t \<noteq> None \<and> monotonic t = startTime s then []
      else case inNN t of
             None \<Rightarrow> []
           | Some n \<Rightarrow> if printOutputLayersOnce s then [n] else [])"
  by (simp add: calls_iteration layer_dumps_def map_filter_def split: option.split)

lemma latch_stays_off:
  "\<not> printOutputLayersOnce s \<Longrightarrow> \<not> printOutputLayersOnce (state (run s ts))"
proof (induction ts arbitrary: s)
  case Nil
  then show ?case by simp
next
  case (Cons t ts)
  from Cons.prems have "\<not> printOutputLayersOnce (state (iteration s t))"
    by (simp add: latch_iteration)
  with Cons.IH show ?case
    by (simp add: state_run_Cons del: run.simps)
qed

lemma no_dump_when_off:
  "\<not> printOutputLayersOnce s \<Longrightarrow> layer_dumps (calls (run s ts)) = []"
proof (induction ts arbitrary: s)
  case Nil
  show ?case by (simp add: layer_dumps_def map_filter_def)
next
  case (Cons t ts)
  from Cons.prems have off: "\<not> printOutputLayersOnce (state (iteration s t))"
    by (simp add: latch_iteration)
  from Cons.prems have "layer_dumps (calls (iteration s t)) = []"
    by (simp add: layer_dumps_iteration split: option.split)
  with Cons.IH [OF off] show ?case
    by (simp add: calls_run_Cons layer_dumps_append del: run.simps)
qed

lemma dump_at_most_once: "length (layer_dumps (calls (run s ts))) \<le> 1"
proof (induction ts arbitrary: s)
  case Nil
  show ?case by (simp add: layer_dumps_def map_filter_def)
next
  case (Cons t ts)
  show ?case
  proof (cases "layer_dumps (calls (iteration s t)) = []")
    case True
    with Cons.IH [of "state (iteration s t)"] show ?thesis
      by (simp add: calls_run_Cons layer_dumps_append del: run.simps)
  next
    case False
    then have fired: "\<not> (RGBFrames t \<noteq> None \<and> monotonic t = startTime s)"
        "inNN t \<noteq> None" "printOutputLayersOnce s"
      by (auto simp add: layer_dumps_iteration split: if_splits option.splits)
    then have off: "\<not> printOutputLayersOnce (state (iteration s t))"
      by (auto simp add: latch_iteration)
    from fired have "length (layer_dumps (calls (iteration s t))) = 1"
      by (auto simp add: layer_dumps_iteration)
    with no_dump_when_off [OF off, of ts] show ?thesis
      by (simp add: calls_run_Cons layer_dumps_append del: run.simps)
  qed
qed

lemma no_dump_without_metadata:
  "\<forall>u\<in>set ts. inNN u = None \<Longrightarrow> layer_dumps (calls (run s ts)) = []"
proof (induction ts arbitrary: s)
  case Nil
  show ?case by (simp add: layer_dumps_def map_filter_def)
next
  case (Cons t ts)
  then have "layer_dumps (calls (iteration s t)) = []"
    by (simp add: layer_dumps_iteration)
  with Cons show ?case
    by (simp add: calls_run_Cons layer_dumps_append del: run.simps)
qed

lemma latch_kept_without_metadata:
  "\<forall>u\<in>set ts. inNN u = None \<Longrightarrow>
     printOutputLayersOnce (state (run s ts)) = printOutputLayersOnce s"
proof (induction ts arbitrary: s)
  case Nil
  show ?case by simp
next
  case (Cons t ts)
  then have "printOutputLayersOnce (state (iteration s t)) = printOutputLayersOnce s"
    by (simp add: latch_iteration)
  with Cons show ?case
    by (simp add: state_run_Cons del: run.simps)
qed

lemma dump_fires_at_first_metadata:
  assumes on: "printOutputLayersOnce s"
    and running: "status (run s pre) = Continue"
    and quiet: "\<forall>u\<in>set pre. inNN u = None"
    and msg: "inNN t = Some n"
    and ok: "RGBFrames t = None \<or> monotonic t \<noteq> startTime s"
  shows "layer_dumps (calls (run s pre)) = []"
    and "layer_dumps (calls (run s (pre @ [t]))) = [n]"
    and "layer_dumps (calls (run s (pre @ t # post))) = [n]"
proof -
  let ?s = "state (run s pre)"
  show none: "layer_dumps (calls (run s pre)) = []"
    using quiet by (rule no_dump_without_metadata)
  have latch: "printOutputLayersOnce ?s"
    using on quiet by (simp add: latch_kept_without_metadata)
  have here: "layer_dumps (calls (iteration ?s t)) = [n]"
    using latch msg ok by (auto simp add: layer_dumps_iteration startTime_run)
  have off: "\<not> printOutputLayersOnce (state (iteration ?s t))"
    using msg ok by (auto simp add: latch_iteration startTime_run)
  show "layer_dumps (calls (run s (pre @ [t]))) = [n]"
    using running none here by (simp add: calls_run_snoc layer_dumps_append del: run.simps)
  have "layer_dumps (calls (run ?s (t # post))) = [n]"
    using here no_dump_when_off [OF off, of post]
    by (simp add: calls_run_Cons layer_dumps_append del: run.simps)
  then show "layer_dumps (calls (run s (pre @ t # post))) = [n]"
    using running none by (simp add: run_append layer_dumps_append del: run.simps)
qed


subsection \<open>The variables against the history of the session\<close>

lemma map_filter_snoc:
  "List.map_filter f (xs @ [x]) = List.map_filter f xs @ (case f x of None \<Rightarrow> [] | Some y \<Rightarrow> [y])"
  by (simp add: map_filter_def split: option.split)

lemma latest_detections_Nil: "latest_detections [] = []"
  by (simp add: latest_detections_def map_filter_def)

lemma latest_detections_snoc:
  "latest_detections (ts @ [t]) =
     (case inDet t of None \<Rightarrow> latest_detections ts | Some m \<Rightarrow> ImgDetections.detections m)"
  by (simp add: latest_detections_def map_filter_snoc Let_def split: option.split)

lemma latest_colour_frame_Nil: "latest_colour_frame [] = None"
  by (simp add: latest_colour_frame_def map_filter_def)

lemma latest_colour_frame_snoc:
  "latest_colour_frame (ts @ [t]) =
     (case RGBFrames t of None \<Rightarrow> latest_colour_frame ts | Some f \<Rightarrow> Some f)"
  by (simp add: latest_colour_frame_def map_filter_snoc Let_def split: option.split)

lemma upload_pipeline_snoc:
  "status (upload_pipeline cfg t0 ts) = Continue \<Longrightarrow>
     state (upload_pipeline cfg t0 (ts @ [t])) = state (iteration (state (upload_pipeline cfg t0 ts)) t)"
  by (simp add: upload_pipeline_def state_run_snoc del: run.simps)

lemma upload_pipeline_startTime: "startTime (state (upload_pipeline cfg t0 ts)) = t0"
  by (simp add: upload_pipeline_def startTime_run initial_def)

lemma upload_pipeline_color2: "color2 (state (upload_pipeline cfg t0 ts)) = TEXT_COLOR2 cfg"
  by (simp add: upload_pipeline_def color2_run initial_def)

lemma upload_pipeline_snoc_Continue:
  "status (upload_pipeline cfg t0 (ts @ [t])) = Continue \<Longrightarrow>
     status (upload_pipeline cfg t0 ts) = Continue \<and> (RGBFrames t = None \<or> monotonic t \<noteq> t0)"
  by (auto simp add: upload_pipeline_def run_Continue_iff initial_def)

lemma detections_upload_pipeline:
  "status (upload_pipeline cfg t0 ts) = Continue \<Longrightarrow>
     detections (state (upload_pipeline cfg t0 ts)) = latest_detections ts"
proof (induction ts rule: rev_induct)
  case Nil
  show ?case by (simp add: upload_pipeline_def initial_def latest_detections_Nil)
next
  case (snoc t ts)
  from snoc.prems have running: "status (upload_pipeline cfg t0 ts) = Continue"
    and ok: "RGBFrames t = None \<or> monotonic t \<noteq> t0"
    by (simp_all add: upload_pipeline_snoc_Continue)
  from ok show ?case
    by (auto simp add: upload_pipeline_snoc [OF running] detections_iteration upload_pipeline_startTime
        latest_detections_snoc snoc.IH [OF running] split: option.split)
qed

lemma counter_upload_pipeline:
  "status (upload_pipeline cfg t0 ts) = Continue \<Longrightarrow>
     counter (state (upload_pipeline cfg t0 ts)) = int (length (List.map_filter inDet ts))"
proof (induction ts rule: rev_induct)
  case Nil
  show ?case by (simp add: upload_pipeline_def initial_def map_filter_def)
next
  case (snoc t ts)
  from snoc.prems have running: "status (upload_pipeline cfg t0 ts) = Continue"
    and ok: "RGBFrames t = None \<or> monotonic t \<noteq> t0"
    by (simp_all add: upload_pipeline_snoc_Continue)
  from ok show ?case
    by (auto simp add: upload_pipeline_snoc [OF running] counter_iteration upload_pipeline_startTime
        map_filter_snoc snoc.IH [OF running] split: option.split)
qed

lemma clrFrame_upload_pipeline:
  "status (upload_pipeline cfg t0 ts) = Continue \<Longrightarrow>
     (case latest_colour_frame ts of
        None \<Rightarrow> clrFrame (state (upload_pipeline cfg t0 ts)) = None
      | Some f \<Rightarrow> \<exists>x. clrFrame (state (upload_pipeline cfg t0 ts)) =
          Some (putText f (NN_fps x) (2, rows f - 4) FONT_HERSHEY_TRIPLEX (4 / 10) (TEXT_COLOR2 cfg)))"
proof (induction ts rule: rev_induct)
  case Nil
  show ?case by (simp add: upload_pipeline_def initial_def latest_colour_frame_Nil)
next
  case (snoc t ts)
  from snoc.prems have running: "status (upload_pipeline cfg t0 ts) = Continue"
    and ok: "RGBFrames t = None \<or> monotonic t \<noteq> t0"
    by (simp_all add: upload_pipeline_snoc_Continue)
  show ?case
  proof (cases "RGBFrames t")
    case None
    then show ?thesis
      using snoc.IH [OF running]
      by (auto simp add: upload_pipeline_snoc [OF running] clrFrame_iteration latest_colour_frame_snoc
          split: option.splits)
  next
    case (Some f)
    with ok have "monotonic t \<noteq> t0" by simp
    with Some show ?thesis
      by (auto simp add: upload_pipeline_snoc [OF running] clrFrame_iteration latest_colour_frame_snoc
          upload_pipeline_startTime upload_pipeline_color2)
  qed
qed

lemma colour_render_iteration:
  assumes "displayFrame ''RGB Detection'' g ds \<in> set (calls (iteration s t))"
  shows "status (iteration s t) = key_check t"
    and "clrFrame (state (iteration s t)) = Some g"
    and "detections (state (iteration s t)) = ds"
proof -
  have ok: "\<not> (RGBFrames t \<noteq> None \<and> monotonic t = startTime s)"
    using assms by (auto simp add: calls_iteration split: option.splits)
  then show "status (iteration s t) = key_check t"
    by (auto simp add: status_iteration)
  from ok assms have "displayFrame ''RGB Detection'' g ds \<in>
      set (case clrFrame (state (iteration s t)) of
             None \<Rightarrow> []
           | Some f \<Rightarrow> [displayFrame ''RGB Detection'' f (detections (state (iteration s t)))])"
    by (subst (asm) calls_iteration) (auto split: option.splits if_splits)
  then show "clrFrame (state (iteration s t)) = Some g"
    and "detections (state (iteration s t)) = ds"
    by (auto split: option.splits)
qed


text \<open>The colour frame the loop holds: when it is kept and what it is when a new one arrives.\<close>

lemma clrFrame_run_without_colour:
  "\<forall>u\<in>set ts. RGBFrames u = None \<Longrightarrow> clrFrame (state (run s ts)) = clrFrame s"
proof (induction ts arbitrary: s)
  case Nil
  show ?case by simp
next
  case (Cons t ts)
  then have "clrFrame (state (iteration s t)) = clrFrame s"
    by (simp add: clrFrame_iteration)
  with Cons show ?case
    by (simp add: state_run_Cons del: run.simps)
qed

lemma clrFrame_upload_pipeline_arrival:
  assumes running: "status (upload_pipeline cfg t0 ts) = Continue"
    and arrived: "RGBFrames n = Some f"
    and clock: "monotonic n \<noteq> t0"
  shows "clrFrame (state (upload_pipeline cfg t0 (ts @ [n]))) =
           Some (putText f (NN_fps (of_nat (length (List.map_filter inDet ts)) / (monotonic n - t0)))
                   (2, rows f - 4) FONT_HERSHEY_TRIPLEX (4 / 10) (TEXT_COLOR2 cfg))"
  using arrived clock counter_upload_pipeline [OF running]
  by (simp add: upload_pipeline_snoc [OF running] clrFrame_iteration upload_pipeline_startTime
      upload_pipeline_color2)

lemma upload_pipeline_append:
  "status (upload_pipeline cfg t0 ts) = Continue \<Longrightarrow>
     state (upload_pipeline cfg t0 (ts @ us)) = state (run (state (upload_pipeline cfg t0 ts)) us)"
  by (simp add: upload_pipeline_def run_append del: run.simps)

lemma upload_pipeline_prefix_Continue:
  "status (upload_pipeline cfg t0 (ts @ us)) = Continue \<Longrightarrow>
     status (upload_pipeline cfg t0 ts) = Continue"
  by (simp add: upload_pipeline_def run_Continue_iff)

section \<open>The pipeline description\<close>





section \<open>The claims about the host loop\<close>

text \<open>
  Claim C1 says that on a tick where a detection message arrives and no colour frame
  does, after a colour frame was retrieved on an earlier tick, no render call for the
  colour stream is made, the frame being held for one iteration only. The loop does
  otherwise: \<open>clrFrame\<close> keeps the last colour frame from one iteration to the next and
  line 192 tests that variable, not this tick's message. What holds is this. Take a
  session that is still running, in which the colour frame \<open>f\<close> arrived on tick \<open>c\<close> and
  no colour frame has arrived since. The frame the loop holds is \<open>g\<close>: \<open>f\<close> with the FPS
  text drawn when it arrived, the number of detection messages before \<open>c\<close> over the time
  elapsed at \<open>c\<close>. On a next tick \<open>t\<close> with a detection message and no colour frame, the
  colour window is rendered exactly once, with \<open>g\<close> and the records that have just
  arrived. After that \<open>g\<close> stays in \<open>clrFrame\<close> for as long as no colour frame arrives,
  and when a colour frame arrives on a later tick \<open>n\<close> of the running session, that
  frame with its own FPS text takes the place of \<open>g\<close>.
\<close>

theorem C1_retained_frame_is_rendered:
  fixes before between later :: "('px, 'd, 'nn) tick list" and c t n :: "('px, 'd, 'nn) tick"
  assumes running: "status (upload_pipeline cfg t0 (before @ c # between)) = Continue"
    and arrived: "RGBFrames c = Some f"
    and since: "\<forall>u\<in>set between. RGBFrames u = None"
    and no_frame: "RGBFrames t = None"
    and message: "inDet t = Some m"
    and stamped: "g = putText f (NN_fps (of_nat (length (List.map_filter inDet before)) / (monotonic c - t0)))
                      (2, rows f - 4) FONT_HERSHEY_TRIPLEX (4 / 10) (TEXT_COLOR2 cfg)"
  shows "renders ''RGB Detection''
           (calls (iteration (state (upload_pipeline cfg t0 (before @ c # between))) t)) =
           [displayFrame ''RGB Detection'' g (ImgDetections.detections m)] \<and>
         ((\<forall>u\<in>set later. RGBFrames u = None) \<longrightarrow>
            clrFrame (state (upload_pipeline cfg t0 (before @ c # between @ t # later))) = Some g) \<and>
         (status (upload_pipeline cfg t0 (before @ c # between @ t # later)) = Continue \<and>
          RGBFrames n = Some f' \<and> monotonic n \<noteq> t0 \<longrightarrow>
            clrFrame (state (upload_pipeline cfg t0 (before @ c # between @ t # later @ [n]))) =
              Some (putText f'
                      (NN_fps (of_nat (length (List.map_filter inDet (before @ c # between @ t # later))) /
                               (monotonic n - t0)))
                      (2, rows f' - 4) FONT_HERSHEY_TRIPLEX (4 / 10) (TEXT_COLOR2 cfg)))"
proof -
  let ?h = "before @ c # between"
  let ?s = "state (upload_pipeline cfg t0 ?h)"
  have split_h: "?h = (before @ [c]) @ between"
    by simp
  have running_c: "status (upload_pipeline cfg t0 (before @ [c])) = Continue"
    using running unfolding split_h by (rule upload_pipeline_prefix_Continue)
  then have running_b: "status (upload_pipeline cfg t0 before) = Continue"
    by (rule upload_pipeline_prefix_Continue)
  have clock: "monotonic c \<noteq> t0"
    using upload_pipeline_snoc_Continue [OF running_c] arrived by simp
  have at_c: "clrFrame (state (upload_pipeline cfg t0 (before @ [c]))) = Some g"
    unfolding stamped by (rule clrFrame_upload_pipeline_arrival [OF running_b arrived clock])
  have held: "clrFrame ?s = Some g"
    unfolding split_h upload_pipeline_append [OF running_c]
    using since at_c by (simp add: clrFrame_run_without_colour)
  have kept: "clrFrame (state (iteration ?s t)) = Some g"
    using no_frame held by (simp add: clrFrame_iteration)
  have dets: "detections (state (iteration ?s t)) = ImgDetections.detections m"
    using no_frame message by (simp add: detections_iteration)
  have one: "renders ''RGB Detection'' (calls (iteration ?s t)) =
      [displayFrame ''RGB Detection'' g (ImgDetections.detections m)]"
    using no_frame kept dets by (simp add: calls_iteration renders_def split: option.split)
  have two: "clrFrame (state (upload_pipeline cfg t0 (before @ c # between @ t # later))) = Some g"
    if quiet: "\<forall>u\<in>set later. RGBFrames u = None"
  proof -
    have "before @ c # between @ t # later = ?h @ (t # later)"
      by simp
    then have "state (upload_pipeline cfg t0 (before @ c # between @ t # later)) =
        state (run ?s (t # later))"
      using upload_pipeline_append [OF running, of "t # later"] by simp
    moreover have "clrFrame (state (run ?s (t # later))) = clrFrame ?s"
      using no_frame quiet by (intro clrFrame_run_without_colour) simp
    ultimately show ?thesis using held by simp
  qed
  have three: "clrFrame (state (upload_pipeline cfg t0 (before @ c # between @ t # later @ [n]))) =
      Some (putText f'
              (NN_fps (of_nat (length (List.map_filter inDet (before @ c # between @ t # later))) /
                       (monotonic n - t0)))
              (2, rows f' - 4) FONT_HERSHEY_TRIPLEX (4 / 10) (TEXT_COLOR2 cfg))"
    if on: "status (upload_pipeline cfg t0 (before @ c # between @ t # later)) = Continue"
      and new: "RGBFrames n = Some f'" and clock': "monotonic n \<noteq> t0"
  proof -
    have "before @ c # between @ t # later @ [n] = (before @ c # between @ t # later) @ [n]"
      by simp
    then show ?thesis
      using clrFrame_upload_pipeline_arrival [OF on new clock'] by simp
  qed
  from one two three show ?thesis by blast
qed

text \<open>
  The theorem on the scenario of the specification, drawn out: a colour frame on the
  first tick, nothing on the second, a detection message with two records on the third,
  a metadata message on the fourth, a second colour frame on the fifth. The third tick
  renders the first frame with the two records, the fourth still holds it, and on the
  fifth the second frame replaces it, with one detection message counted over five
  seconds.
\<close>

theorem C1_witness:
  "status (upload_pipeline cfg0 0 ([] @ colour_tick # [idle])) = Continue \<and>
   RGBFrames colour_tick = Some frameA \<and>
   RGBFrames idle = None \<and>
   RGBFrames detection_tick = None \<and>
   inDet detection_tick = Some (ImgDetections [7, 9]) \<and>
   renders ''RGB Detection''
     (calls (iteration (state (upload_pipeline cfg0 0 ([] @ colour_tick # [idle]))) detection_tick)) =
     [displayFrame ''RGB Detection''
        (putText frameA (NN_fps 0) (2, 296) FONT_HERSHEY_TRIPLEX (4 / 10) (255, 255, 255)) [7, 9]] \<and>
   clrFrame (state (upload_pipeline cfg0 0
       ([] @ colour_tick # [idle] @ detection_tick # [metadata_tick]))) =
     Some (putText frameA (NN_fps 0) (2, 296) FONT_HERSHEY_TRIPLEX (4 / 10) (255, 255, 255)) \<and>
   status (upload_pipeline cfg0 0
       ([] @ colour_tick # [idle] @ detection_tick # [metadata_tick])) = Continue \<and>
   RGBFrames second_colour_tick = Some frameB \<and>
   monotonic second_colour_tick \<noteq> 0 \<and>
   clrFrame (state (upload_pipeline cfg0 0
       ([] @ colour_tick # [idle] @ detection_tick # [metadata_tick] @ [second_colour_tick]))) =
     Some (putText frameB (NN_fps (1 / 5)) (2, 296) FONT_HERSHEY_TRIPLEX (4 / 10) (255, 255, 255))"
proof -
  have running: "status (upload_pipeline cfg0 0 ([] @ colour_tick # [idle])) = Continue"
    by code_simp
  have arrived: "RGBFrames colour_tick = Some frameA"
    by (simp add: colour_tick_def)
  have since: "\<forall>u\<in>set [idle]. RGBFrames u = None"
    by (simp add: idle_def)
  have no_frame: "RGBFrames detection_tick = None"
    by (simp add: detection_tick_def)
  have message: "inDet detection_tick = Some (ImgDetections [7, 9])"
    by (simp add: detection_tick_def)
  have stamped: "putText frameA (NN_fps 0) (2, 296) FONT_HERSHEY_TRIPLEX (4 / 10) (255, 255, 255) =
      putText frameA (NN_fps (of_nat (length (List.map_filter inDet ([] :: (nat, nat, nat) tick list))) /
                             (monotonic colour_tick - 0)))
        (2, rows frameA - 4) FONT_HERSHEY_TRIPLEX (4 / 10) (TEXT_COLOR2 cfg0)"
    by (simp add: map_filter_def frameA_def cfg0_def)
  have quiet: "\<forall>u\<in>set [metadata_tick]. RGBFrames u = None"
    by (simp add: metadata_tick_def)
  have on: "status (upload_pipeline cfg0 0
      ([] @ colour_tick # [idle] @ detection_tick # [metadata_tick])) = Continue"
    by code_simp
  have new: "RGBFrames second_colour_tick = Some frameB"
    by (simp add: second_colour_tick_def)
  have clock: "monotonic second_colour_tick \<noteq> 0"
    by (simp add: second_colour_tick_def)
  have count: "putText frameB
      (NN_fps (of_nat (length (List.map_filter inDet
          ([] @ colour_tick # [idle] @ detection_tick # [metadata_tick]))) /
        (monotonic second_colour_tick - 0)))
      (2, rows frameB - 4) FONT_HERSHEY_TRIPLEX (4 / 10) (TEXT_COLOR2 cfg0) =
      putText frameB (NN_fps (1 / 5)) (2, 296) FONT_HERSHEY_TRIPLEX (4 / 10) (255, 255, 255)"
    by (simp add: map_filter_def colour_tick_def idle_def detection_tick_def metadata_tick_def
        second_colour_tick_def frameB_def cfg0_def)
  note C1_retained_frame_is_rendered
    [OF running arrived since no_frame message stamped, of "[metadata_tick]" second_colour_tick frameB]
  with quiet on new clock count
  have "renders ''RGB Detection''
      (calls (iteration (state (upload_pipeline cfg0 0 ([] @ colour_tick # [idle]))) detection_tick)) =
      [displayFrame ''RGB Detection''
         (putText frameA (NN_fps 0) (2, 296) FONT_HERSHEY_TRIPLEX (4 / 10) (255, 255, 255))
         (ImgDetections.detections (ImgDetections [7, 9]))] \<and>
    clrFrame (state (upload_pipeline cfg0 0
        ([] @ colour_tick # [idle] @ detection_tick # [metadata_tick]))) =
      Some (putText frameA (NN_fps 0) (2, 296) FONT_HERSHEY_TRIPLEX (4 / 10) (255, 255, 255)) \<and>
    clrFrame (state (upload_pipeline cfg0 0
        ([] @ colour_tick # [idle] @ detection_tick # [metadata_tick] @ [second_colour_tick]))) =
      Some (putText frameB (NN_fps (1 / 5)) (2, 296) FONT_HERSHEY_TRIPLEX (4 / 10) (255, 255, 255))"
    by metis
  with running arrived since no_frame message on new clock show ?thesis
    by simp
qed

text \<open>
  Against the claim as it is written: in that scenario the second tick does render the
  colour window, with the frame of the first tick and the two new records.
\<close>

theorem C1_counterexample:
  "RGBFrames detection_tick = None \<and>
   inDet detection_tick = Some (ImgDetections [7, 9]) \<and>
   RGBFrames colour_tick = Some frameA \<and>
   renders ''RGB Detection''
     (calls (iteration (state (upload_pipeline cfg0 0 [colour_tick])) detection_tick)) =
     [displayFrame ''RGB Detection''
        (putText frameA (NN_fps 0) (2, 296) FONT_HERSHEY_TRIPLEX (4 / 10) (255, 255, 255)) [7, 9]]"
  by code_simp

text \<open>
  Claim C2 says that on every tick with a colour frame, \<open>clrFrame\<close> becomes that frame
  and the FPS text, counter over elapsed seconds since the start, is drawn on it, whether
  or not a detection message came on the same tick. The division has no value when the
  clock still reads the start time, and the iteration raises there. With that case set
  aside the claim holds: on every tick with a colour frame \<open>f\<close> and a clock reading other
  than the start time, \<open>clrFrame\<close> becomes \<open>f\<close> with the text for
  \<open>counter / (monotonic - startTime)\<close> drawn at \<open>(2, rows - 4)\<close>, whatever the detection
  queue delivers, and the iteration goes on to the key check. The counter is the one the
  tick starts with: a detection message of the same tick is counted only afterwards.
\<close>

theorem C2_colour_frame_gets_fps_text:
  assumes "RGBFrames t = Some f" and "monotonic t \<noteq> startTime s"
  shows "clrFrame (state (iteration s t)) =
           Some (putText f (NN_fps (of_int (counter s) / (monotonic t - startTime s)))
                   (2, rows f - 4) FONT_HERSHEY_TRIPLEX (4 / 10) (color2 s)) \<and>
         status (iteration s t) = key_check t"
  using assms by (simp add: clrFrame_iteration status_iteration)

text \<open>
  The theorem on a tick that brings a colour frame and a detection message together,
  two seconds after the start, with three messages counted so far: the text shows 3/2.
\<close>

theorem C2_witness:
  "RGBFrames (full_tick\<lparr>monotonic := 2\<rparr>) = Some frameA \<and>
   monotonic (full_tick\<lparr>monotonic := 2\<rparr>) \<noteq> startTime busy \<and>
   clrFrame (state (iteration busy (full_tick\<lparr>monotonic := 2\<rparr>))) =
     Some (frameA\<lparr>drawn := [\<lparr>caption = NN_fps (3 / 2), org = (2, 296),
                               fontFace = FONT_HERSHEY_TRIPLEX, fontScale = 2 / 5,
                               color = (255, 255, 255)\<rparr>]\<rparr>) \<and>
   status (iteration busy (full_tick\<lparr>monotonic := 2\<rparr>)) = Continue"
  using C2_colour_frame_gets_fps_text [of "full_tick\<lparr>monotonic := 2\<rparr>" frameA busy]
  by (simp add: full_tick_def busy_def frameA_def putText_def key_check_def ord_def)

text \<open>
  Against the claim as it is written: a colour frame that arrives while the clock still
  reads the start time gets no text, and the iteration ends in \<open>ZeroDivisionError\<close>.
\<close>

theorem C2_counterexample:
  "RGBFrames full_tick = Some frameA \<and>
   monotonic full_tick = startTime (initial cfg0 1 :: (nat, nat) vars) \<and>
   status (iteration (initial cfg0 1) full_tick) = Raise ZeroDivisionError \<and>
   clrFrame (state (iteration (initial cfg0 1) full_tick)) = Some frameA \<and>
   drawn frameA = []"
  by code_simp

text \<open>
  Claim C3 says that on every tick with a detection message the list \<open>detections\<close> is
  replaced by the records of the message and the counter goes up by exactly one, however
  many records there are. Lines 180 to 183 do that, but they come after the FPS division:
  on a tick that also brings a colour frame while the clock reads the start time, the
  iteration has raised before reaching them. With that case set aside the claim holds:
  on every tick with a detection message, and with no colour frame or a clock reading
  other than the start time, the list becomes the records of the message and the counter
  goes up by one.
\<close>

theorem C3_detections_replaced_and_counted:
  assumes "inDet t = Some m" and "RGBFrames t = None \<or> monotonic t \<noteq> startTime s"
  shows "detections (state (iteration s t)) = ImgDetections.detections m \<and>
         counter (state (iteration s t)) = counter s + 1 \<and>
         status (iteration s t) = key_check t"
  using assms by (auto simp add: detections_iteration counter_iteration status_iteration)

text \<open>The theorem on a message with no record at all: the list is emptied, the counter goes from 3 to 4.\<close>

theorem C3_witness:
  "inDet (idle\<lparr>inDet := Some (ImgDetections [])\<rparr>) = Some (ImgDetections []) \<and>
   RGBFrames (idle\<lparr>inDet := Some (ImgDetections [])\<rparr>) = None \<and>
   detections busy = [7, 9] \<and>
   counter busy = 3 \<and>
   detections (state (iteration busy (idle\<lparr>inDet := Some (ImgDetections [])\<rparr>))) = [] \<and>
   counter (state (iteration busy (idle\<lparr>inDet := Some (ImgDetections [])\<rparr>))) = 4"
  using C3_detections_replaced_and_counted
    [of "idle\<lparr>inDet := Some (ImgDetections [])\<rparr>" "ImgDetections []" busy]
  by (simp add: idle_def busy_def)

text \<open>
  Against the claim as it is written: a detection message with two records that arrives
  together with a colour frame while the clock reads the start time is neither stored
  nor counted.
\<close>

theorem C3_counterexample:
  "inDet full_tick = Some (ImgDetections [7, 9]) \<and>
   detections (state (iteration (initial cfg0 1) full_tick)) = [] \<and>
   counter (state (iteration (initial cfg0 1) full_tick)) = 0 \<and>
   status (iteration (initial cfg0 1) full_tick) = Raise ZeroDivisionError"
  by code_simp

text \<open>
  Claim C4: for every tick and each of the five queues, when the queue has no message
  the variables that belong to it are the same after the iteration as before: \<open>lFrame\<close>
  for the left queue, \<open>rFrame\<close> for the right one, \<open>clrFrame\<close> for the colour queue,
  \<open>detections\<close> and \<open>counter\<close> for the detection queue, \<open>printOutputLayersOnce\<close> for the
  metadata queue. This holds for the variables as the iteration leaves them, also when
  it leaves by the exception.
\<close>

theorem C4_absent_message_keeps_state:
  "(LeftFrames t = None \<longrightarrow> lFrame (state (iteration s t)) = lFrame s) \<and>
   (RightFrames t = None \<longrightarrow> rFrame (state (iteration s t)) = rFrame s) \<and>
   (RGBFrames t = None \<longrightarrow> clrFrame (state (iteration s t)) = clrFrame s) \<and>
   (inDet t = None \<longrightarrow>
      detections (state (iteration s t)) = detections s \<and>
      counter (state (iteration s t)) = counter s) \<and>
   (inNN t = None \<longrightarrow>
      printOutputLayersOnce (state (iteration s t)) = printOutputLayersOnce s)"
  by (simp add: lFrame_iteration rFrame_iteration clrFrame_iteration detections_iteration
      counter_iteration latch_iteration)

text \<open>
  The theorem on a tick with five empty queues, in a state where every variable holds
  something: nothing is reset.
\<close>

theorem C4_witness:
  "LeftFrames idle = None \<and> RightFrames idle = None \<and> RGBFrames idle = None \<and>
   inDet idle = None \<and> inNN idle = None \<and>
   lFrame (state (iteration busy idle)) = Some frameB \<and>
   rFrame (state (iteration busy idle)) = Some frameB \<and>
   clrFrame (state (iteration busy idle)) = Some frameA \<and>
   detections (state (iteration busy idle)) = [7, 9] \<and>
   counter (state (iteration busy idle)) = 3 \<and>
   printOutputLayersOnce (state (iteration busy idle))"
  using C4_absent_message_keeps_state [of idle busy]
  by (simp add: idle_def busy_def)

text \<open>
  Claim C5 says that over any session the layer names are dumped at most once: on the
  first tick with a metadata message while the flag is set, and on no later tick, even
  if metadata keeps arriving and the configuration flag is still true. The dump sits
  after the FPS division, so the first metadata tick does not dump when it also brings a
  colour frame while the clock reads the start time; the session ends there. With that
  case set aside the claim holds. Over any session there is at most one dump. With the
  configuration flag true, if the session is still running after ticks that carried no
  metadata and the next tick carries the metadata message \<open>n\<close> and has no colour frame or
  a clock reading other than the start time, then nothing was dumped before that tick,
  \<open>n\<close> is dumped on it, and it remains the only dump whatever comes later. With the
  configuration flag false nothing is ever dumped.
\<close>

theorem C5_layer_names_dumped_once:
  fixes ts pre post :: "('px, 'd, 'nn) tick list"
  shows
  "length (layer_dumps (calls (upload_pipeline cfg t0 ts))) \<le> 1 \<and>
   (PRINT_NEURAL_NETWORK_METADATA cfg \<and>
    status (upload_pipeline cfg t0 pre) = Continue \<and>
    (\<forall>u\<in>set pre. inNN u = None) \<and>
    inNN t = Some n \<and>
    (RGBFrames t = None \<or> monotonic t \<noteq> t0) \<longrightarrow>
      layer_dumps (calls (upload_pipeline cfg t0 pre)) = [] \<and>
      layer_dumps (calls (upload_pipeline cfg t0 (pre @ [t]))) = [n] \<and>
      layer_dumps (calls (upload_pipeline cfg t0 (pre @ t # post))) = [n]) \<and>
   (\<not> PRINT_NEURAL_NETWORK_METADATA cfg \<longrightarrow>
      layer_dumps (calls (upload_pipeline cfg t0 ts)) = [])"
proof -
  have once: "length (layer_dumps (calls (upload_pipeline cfg t0 ts))) \<le> 1"
    unfolding upload_pipeline_def by (rule dump_at_most_once)
  have never: "layer_dumps (calls (upload_pipeline cfg t0 ts)) = []"
    if "\<not> PRINT_NEURAL_NETWORK_METADATA cfg"
    unfolding upload_pipeline_def using that
    by (intro no_dump_when_off) (simp add: initial_def)
  have first: "layer_dumps (calls (upload_pipeline cfg t0 pre)) = [] \<and>
      layer_dumps (calls (upload_pipeline cfg t0 (pre @ [t]))) = [n] \<and>
      layer_dumps (calls (upload_pipeline cfg t0 (pre @ t # post))) = [n]"
    if flag: "PRINT_NEURAL_NETWORK_METADATA cfg"
      and running: "status (upload_pipeline cfg t0 pre) = Continue"
      and quiet: "\<forall>u\<in>set pre. inNN u = None"
      and msg: "inNN t = Some n"
      and ok: "RGBFrames t = None \<or> monotonic t \<noteq> t0"
  proof -
    have on: "printOutputLayersOnce (initial cfg t0 :: ('px, 'd) vars)"
      using flag by (simp add: initial_def)
    have running': "status (run (initial cfg t0 :: ('px, 'd) vars) pre) = Continue"
      using running by (simp add: upload_pipeline_def)
    have ok': "RGBFrames t = None \<or> monotonic t \<noteq> startTime (initial cfg t0 :: ('px, 'd) vars)"
      using ok by (simp add: initial_def)
    from dump_fires_at_first_metadata [OF on running' quiet msg ok']
    show ?thesis by (simp add: upload_pipeline_def)
  qed
  from once never first show ?thesis by blast
qed

text \<open>
  The theorem on a session of five ticks: a colour frame, then three metadata messages
  in a row, the last of them on a tick where everything arrives. Only the first is
  dumped. With the flag off, a metadata message is not dumped.
\<close>

theorem C5_witness:
  "PRINT_NEURAL_NETWORK_METADATA cfg0 \<and>
   status (upload_pipeline cfg0 0 [colour_tick, idle]) = Continue \<and>
   inNN colour_tick = None \<and> inNN idle = None \<and>
   inNN metadata_tick = Some 3 \<and>
   RGBFrames metadata_tick = None \<and>
   layer_dumps (calls (upload_pipeline cfg0 0 [colour_tick, idle])) = [] \<and>
   layer_dumps (calls (upload_pipeline cfg0 0
      ([colour_tick, idle] @ metadata_tick # [metadata_tick\<lparr>inNN := Some 4\<rparr>, full_tick]))) = [3] \<and>
   \<not> PRINT_NEURAL_NETWORK_METADATA cfg1 \<and>
   layer_dumps (calls (upload_pipeline cfg1 0 [metadata_tick])) = []"
proof -
  have flag: "PRINT_NEURAL_NETWORK_METADATA cfg0"
    by (simp add: cfg0_def)
  have running: "status (upload_pipeline cfg0 0 [colour_tick, idle]) = Continue"
    by code_simp
  have quiet: "\<forall>u\<in>set [colour_tick, idle]. inNN u = None"
    by (simp add: colour_tick_def idle_def)
  have msg: "inNN metadata_tick = Some 3"
    by (simp add: metadata_tick_def)
  have ok: "RGBFrames metadata_tick = None"
    by (simp add: metadata_tick_def)
  have off: "\<not> PRINT_NEURAL_NETWORK_METADATA cfg1"
    by (simp add: cfg1_def)
  have q1: "inNN colour_tick = None" and q2: "inNN idle = None"
    by (simp_all add: colour_tick_def idle_def)
  have fired: "layer_dumps (calls (upload_pipeline cfg0 0 [colour_tick, idle])) = [] \<and>
      layer_dumps (calls (upload_pipeline cfg0 0
        ([colour_tick, idle] @ metadata_tick # [metadata_tick\<lparr>inNN := Some 4\<rparr>, full_tick]))) = [3]"
    using C5_layer_names_dumped_once
      [of cfg0 0 "[]" "[colour_tick, idle]" metadata_tick 3 "[metadata_tick\<lparr>inNN := Some 4\<rparr>, full_tick]"]
      flag running quiet msg ok
    by blast
  have silent: "layer_dumps (calls (upload_pipeline cfg1 0 [metadata_tick])) = []"
    using C5_layer_names_dumped_once [of cfg1 0 "[metadata_tick]" "[]" metadata_tick 3 "[]"] off
    by blast
  from flag running q1 q2 msg ok fired off silent show ?thesis
    by blast
qed

text \<open>
  Against the claim as it is written: with the flag set, the first tick of a session
  carries a metadata message, together with a colour frame while the clock reads the
  start time. The session ends on that tick and nothing has been dumped.
\<close>

theorem C5_counterexample:
  "PRINT_NEURAL_NETWORK_METADATA cfg0 \<and>
   inNN full_tick = Some 3 \<and>
   layer_dumps (calls (upload_pipeline cfg0 1 [full_tick, metadata_tick])) = [] \<and>
   status (upload_pipeline cfg0 1 [full_tick, metadata_tick]) = Raise ZeroDivisionError"
  by code_simp

text \<open>
  Claim C6: on every tick where the colour window is rendered, the call gets the most
  recently received colour frame and, as the records to overlay, the most recently
  received detection set, also when that set is empty or came on another tick than the
  frame; nothing matches the two streams by time or number. Stated on the history of
  the session: when the session is still running after the ticks \<open>pre\<close> and the next tick
  \<open>t\<close> renders the colour window with frame \<open>g\<close> and records \<open>ds\<close>, then \<open>ds\<close> is
  \<open>latest_detections\<close> of all ticks up to \<open>t\<close>, and \<open>g\<close> is \<open>latest_colour_frame\<close> of all
  ticks up to \<open>t\<close> with its FPS text drawn on it. The two are found independently of each
  other, each from its own queue.
\<close>

theorem C6_latest_frame_with_latest_detections:
  fixes pre :: "('px, 'd, 'nn) tick list" and t :: "('px, 'd, 'nn) tick"
  assumes running: "status (upload_pipeline cfg t0 pre) = Continue"
    and shown: "displayFrame ''RGB Detection'' g ds \<in>
                  set (calls (iteration (state (upload_pipeline cfg t0 pre)) t))"
  shows "ds = latest_detections (pre @ [t]) \<and>
         (\<exists>f x. latest_colour_frame (pre @ [t]) = Some f \<and>
                 g = putText f (NN_fps x) (2, rows f - 4) FONT_HERSHEY_TRIPLEX (4 / 10) (TEXT_COLOR2 cfg))"
proof -
  let ?s = "state (upload_pipeline cfg t0 pre)"
  note r = colour_render_iteration [OF shown]
  have ok: "RGBFrames t = None \<or> monotonic t \<noteq> t0"
    using r(1) by (auto simp add: status_iteration upload_pipeline_startTime key_check_def split: if_splits)
  have ds: "ds = latest_detections (pre @ [t])"
    using r(3) ok detections_upload_pipeline [OF running]
    by (auto simp add: detections_iteration upload_pipeline_startTime latest_detections_snoc
        split: option.splits)
  have "\<exists>f x. latest_colour_frame (pre @ [t]) = Some f \<and>
          g = putText f (NN_fps x) (2, rows f - 4) FONT_HERSHEY_TRIPLEX (4 / 10) (TEXT_COLOR2 cfg)"
  proof (cases "RGBFrames t")
    case None
    with r(2) have "clrFrame ?s = Some g"
      by (simp add: clrFrame_iteration)
    with clrFrame_upload_pipeline [OF running] None show ?thesis
      by (auto simp add: latest_colour_frame_snoc split: option.splits)
  next
    case (Some f)
    with ok have "monotonic t \<noteq> t0" by simp
    with Some r(2) show ?thesis
      by (auto simp add: clrFrame_iteration latest_colour_frame_snoc upload_pipeline_startTime
          upload_pipeline_color2)
  qed
  with ds show ?thesis by simp
qed

text \<open>
  The theorem on a session where the frame comes on the first tick, the detections on
  the second, and the third tick brings nothing: the third tick renders the frame of the
  first with the records of the second.
\<close>

theorem C6_witness:
  "status (upload_pipeline cfg0 0 [colour_tick, detection_tick]) = Continue \<and>
   displayFrame ''RGB Detection''
     (putText frameA (NN_fps 0) (2, 296) FONT_HERSHEY_TRIPLEX (4 / 10) (255, 255, 255)) [7, 9]
     \<in> set (calls (iteration (state (upload_pipeline cfg0 0 [colour_tick, detection_tick])) idle)) \<and>
   [7, 9] = latest_detections ([colour_tick, detection_tick] @ [idle]) \<and>
   (\<exists>f x. latest_colour_frame ([colour_tick, detection_tick] @ [idle]) = Some f \<and>
      putText frameA (NN_fps 0) (2, 296) FONT_HERSHEY_TRIPLEX (4 / 10) (255, 255, 255) =
      putText f (NN_fps x) (2, rows f - 4) FONT_HERSHEY_TRIPLEX (4 / 10) (TEXT_COLOR2 cfg0))"
proof -
  have running: "status (upload_pipeline cfg0 0 [colour_tick, detection_tick]) = Continue"
    by code_simp
  have shown: "displayFrame ''RGB Detection''
      (putText frameA (NN_fps 0) (2, 296) FONT_HERSHEY_TRIPLEX (4 / 10) (255, 255, 255)) [7, 9]
      \<in> set (calls (iteration (state (upload_pipeline cfg0 0 [colour_tick, detection_tick])) idle))"
    by code_simp
  from C6_latest_frame_with_latest_detections [OF running shown] running shown
  show ?thesis by blast
qed

text \<open>
  Claim C7: on every tick on which a left or a right frame is retrieved, that frame is
  rendered during the same tick with an empty list of records, whatever the detection
  state is; the two mono windows are never annotated. The calls an iteration makes for
  the window \<open>Left\<close> are exactly one call with the frame just read and the empty list
  when there is a frame, and none when there is not; likewise for \<open>Right\<close>; and these
  calls come first in the iteration, before anything that can fail.
\<close>

theorem C7_mono_frames_rendered_bare:
  "renders ''Left'' (calls (iteration s t)) =
     (case LeftFrames t of None \<Rightarrow> [] | Some f \<Rightarrow> [displayFrame ''Left'' f []]) \<and>
   renders ''Right'' (calls (iteration s t)) =
     (case RightFrames t of None \<Rightarrow> [] | Some f \<Rightarrow> [displayFrame ''Right'' f []]) \<and>
   (\<exists>rest. calls (iteration s t) =
      renders ''Left'' (calls (iteration s t)) @ renders ''Right'' (calls (iteration s t)) @ rest)"
  by (simp add: calls_iteration renders_def split: option.split)

text \<open>
  Claim C8 says that nothing ends the loop but the key poll returning the code of \<open>q\<close>:
  it runs without bound, and no number of iterations, state of the queues or content of
  a message makes it stop. There is one more way out: the FPS division raises when a
  colour frame arrives while the clock reads the start time, and the exception leaves the
  loop. With that case set aside the claim holds. The loop breaks only on a tick whose
  key poll returned the code of \<open>q\<close>. As long as no poll returns it and no tick brings a
  colour frame at the start time, the loop is still running after any number of ticks,
  having polled the key once per tick. And once the session has run that far, a tick
  whose poll returns the code of \<open>q\<close> breaks the loop at the end of that tick, and what
  would have come later is not read.
\<close>

theorem C8_only_the_quit_key_breaks:
  fixes ts pre post :: "('px, 'd, 'nn) tick list"
  shows
  "(status (upload_pipeline cfg t0 ts) = Break \<longrightarrow> (\<exists>t\<in>set ts. key t = ord CHR ''q'')) \<and>
   ((\<forall>t\<in>set ts. key t \<noteq> ord CHR ''q'' \<and> (RGBFrames t = None \<or> monotonic t \<noteq> t0)) \<longrightarrow>
      status (upload_pipeline cfg t0 ts) = Continue \<and>
      polls (calls (upload_pipeline cfg t0 ts)) = length ts) \<and>
   (status (upload_pipeline cfg t0 pre) = Continue \<and> key t = ord CHR ''q'' \<and>
    (RGBFrames t = None \<or> monotonic t \<noteq> t0) \<longrightarrow>
      status (upload_pipeline cfg t0 (pre @ t # post)) = Break \<and>
      polls (calls (upload_pipeline cfg t0 (pre @ t # post))) = length pre + 1)"
proof -
  let ?s = "initial cfg t0 :: ('px, 'd) vars"
  have start: "startTime ?s = t0"
    by (simp add: initial_def)
  have a: "\<exists>t\<in>set ts. key t = ord CHR ''q''" if "status (upload_pipeline cfg t0 ts) = Break"
    using that unfolding upload_pipeline_def by (rule run_Break_key)
  have b: "status (upload_pipeline cfg t0 ts) = Continue \<and>
      polls (calls (upload_pipeline cfg t0 ts)) = length ts"
    if "\<forall>t\<in>set ts. key t \<noteq> ord CHR ''q'' \<and> (RGBFrames t = None \<or> monotonic t \<noteq> t0)"
  proof -
    from that have "status (run ?s ts) = Continue"
      by (simp add: run_Continue_iff start)
    then show ?thesis
      by (simp add: upload_pipeline_def polls_run_Continue)
  qed
  have c: "status (upload_pipeline cfg t0 (pre @ t # post)) = Break \<and>
      polls (calls (upload_pipeline cfg t0 (pre @ t # post))) = length pre + 1"
    if running: "status (upload_pipeline cfg t0 pre) = Continue"
      and quit: "key t = ord CHR ''q''"
      and ok: "RGBFrames t = None \<or> monotonic t \<noteq> t0"
  proof -
    from running have r: "status (run ?s pre) = Continue"
      by (simp add: upload_pipeline_def)
    from quit ok have brk: "status (iteration (state (run ?s pre)) t) = Break"
      by (simp add: status_iteration_Break startTime_run start)
    from ok have one: "polls (calls (iteration (state (run ?s pre)) t)) = 1"
      by (auto simp add: polls_iteration startTime_run start)
    from r brk one show ?thesis
      by (simp add: upload_pipeline_def run_append run_Cons polls_append polls_run_Continue
          del: run.simps)
  qed
  from a b c show ?thesis by blast
qed

text \<open>
  The theorem on two sessions: one that breaks on its third tick and leaves the fourth
  unread, and one of four ticks without the key that is still running at the end.
\<close>

theorem C8_witness:
  "status (upload_pipeline cfg0 0 [colour_tick, detection_tick, quit_tick, metadata_tick]) = Break \<and>
   key quit_tick = ord CHR ''q'' \<and>
   polls (calls (upload_pipeline cfg0 0 [colour_tick, detection_tick, quit_tick, metadata_tick])) = 3 \<and>
   status (upload_pipeline cfg0 0 [colour_tick, detection_tick, metadata_tick, idle]) = Continue \<and>
   polls (calls (upload_pipeline cfg0 0 [colour_tick, detection_tick, metadata_tick, idle])) = 4"
proof -
  have running: "status (upload_pipeline cfg0 0 [colour_tick, detection_tick]) = Continue"
    by code_simp
  have quit: "key quit_tick = ord CHR ''q''"
    by code_simp
  have ok: "RGBFrames quit_tick = None"
    by (simp add: quit_tick_def)
  have calm: "\<forall>t\<in>set [colour_tick, detection_tick, metadata_tick, idle].
      key t \<noteq> ord CHR ''q'' \<and> (RGBFrames t = None \<or> monotonic t \<noteq> 0)"
    by (simp add: colour_tick_def detection_tick_def metadata_tick_def idle_def ord_def)
  have broke: "status (upload_pipeline cfg0 0 ([colour_tick, detection_tick] @ quit_tick # [metadata_tick])) = Break \<and>
      polls (calls (upload_pipeline cfg0 0 ([colour_tick, detection_tick] @ quit_tick # [metadata_tick]))) =
        length [colour_tick, detection_tick] + 1"
    using C8_only_the_quit_key_breaks
      [of cfg0 0 "[colour_tick, detection_tick, metadata_tick, idle]" "[colour_tick, detection_tick]"
        quit_tick "[metadata_tick]"]
      running quit ok
    by blast
  have goes_on: "status (upload_pipeline cfg0 0 [colour_tick, detection_tick, metadata_tick, idle]) = Continue \<and>
      polls (calls (upload_pipeline cfg0 0 [colour_tick, detection_tick, metadata_tick, idle])) =
        length [colour_tick, detection_tick, metadata_tick, idle]"
    using C8_only_the_quit_key_breaks
      [of cfg0 0 "[colour_tick, detection_tick, metadata_tick, idle]" "[colour_tick, detection_tick]"
        quit_tick "[metadata_tick]"]
      calm
    by blast
  from broke goes_on quit show ?thesis by simp
qed

text \<open>
  Against the claim as it is written: a session whose first tick brings a colour frame
  while the clock reads the start time ends on that tick, before the key is polled at
  all, and the key of that tick was not \<open>q\<close>.
\<close>

theorem C8_counterexample:
  "key full_tick \<noteq> ord CHR ''q'' \<and>
   status (upload_pipeline cfg0 1 [full_tick, idle]) = Raise ZeroDivisionError \<and>
   polls (calls (upload_pipeline cfg0 1 [full_tick, idle])) = 0"
  by code_simp

text \<open>
  Claim C10: the FPS text is computed by dividing the counter by the time elapsed since
  the start, with nothing that guards against an elapsed time of zero; on a tick with a
  colour frame the computation is defined only if the elapsed time is strictly positive.
  With a clock that does not go backwards, as \<open>time.monotonic()\<close> is, an iteration that
  reads a colour frame gets past the division exactly when the elapsed time is positive,
  and raises \<open>ZeroDivisionError\<close> otherwise.
\<close>

theorem C10_fps_needs_positive_elapsed_time:
  assumes "RGBFrames t = Some f" and "startTime s \<le> monotonic t"
  shows "(status (iteration s t) \<noteq> Raise ZeroDivisionError) = (0 < monotonic t - startTime s) \<and>
         (status (iteration s t) = Raise ZeroDivisionError) = (monotonic t - startTime s = 0)"
  using assms by (auto simp add: status_iteration key_check_def)

text \<open>The theorem on a colour frame that arrives while the clock reads the start time.\<close>

theorem C10_witness:
  "RGBFrames full_tick = Some frameA \<and>
   startTime (initial cfg0 1 :: (nat, nat) vars) \<le> monotonic full_tick \<and>
   monotonic full_tick - startTime (initial cfg0 1 :: (nat, nat) vars) = 0 \<and>
   status (iteration (initial cfg0 1) full_tick) = Raise ZeroDivisionError"
  using C10_fps_needs_positive_elapsed_time [of full_tick frameA "initial cfg0 1"]
  by (simp add: full_tick_def initial_def)

section \<open>The claim about the pipeline builder\<close>




end
